theory Spec2Isabelle
  imports Main "HOL-Library.Word"
begin

section \<open>Python values used by main.py\<close>

text \<open>
  A Python \<open>str\<close> is a sequence of Unicode code points, so it is a list of naturals here;
  \<open>len\<close>, slicing, \<open>startswith\<close> and \<open>strip\<close> count code points. A \<open>bytes\<close> object is a
  list of octets. \<open>ustr\<close> writes an ASCII literal of the source as a \<open>str\<close>.
\<close>

type_synonym pystr = "nat list"
type_synonym bytes = "8 word list"

definition ustr :: "string \<Rightarrow> pystr" where
  "ustr s = map of_char s"

definition to_bytes :: "string \<Rightarrow> bytes" where
  "to_bytes s = map of_char s"

text \<open>
  The value \<open>json.loads\<close> returns: \<open>None\<close>, \<open>bool\<close>, \<open>int\<close>, \<open>float\<close>, \<open>str\<close>, \<open>list\<close> or
  \<open>dict\<close>. A \<open>dict\<close> keeps insertion order, so it is an association list with distinct
  keys. A \<open>float\<close> is kept as the literal handed to \<open>float()\<close>: IEEE arithmetic is not
  modelled and main.py never computes with the value.
\<close>

datatype json =
    PyNone
  | PyBool bool
  | PyInt int
  | PyFloat pystr
  | PyStr pystr
  | PyList "json list"
  | PyDict "(pystr \<times> json) list"

text \<open>
  The exceptions the code paths of main.py raise. \<open>JSONDecodeError\<close> carries its \<open>doc\<close>
  attribute, the document being parsed. \<open>ValidationError\<close> is pydantic's, the class the
  two \<open>except\<close> clauses name. \<open>ServiceError\<close> stands for whatever a client library of
  the three external services raises (time-out, transport, credentials), tagged by
  a number.
\<close>

datatype error =
    JSONDecodeError pystr
  | UnicodeDecodeError
  | KeyError pystr
  | TypeError
  | IndexError
  | AttributeError
  | ValidationError
  | ServiceError nat

subsection \<open>str methods\<close>

definition startswith :: "pystr \<Rightarrow> pystr \<Rightarrow> bool" where
  "startswith s p = (take (length p) s = p)"

definition endswith :: "pystr \<Rightarrow> pystr \<Rightarrow> bool" where
  "endswith s p = (length p \<le> length s \<and> drop (length s - length p) s = p)"

text \<open>\<open>s[i:j]\<close>: a negative index counts from the end, and both are clipped to the string.\<close>

definition slice_index :: "nat \<Rightarrow> int \<Rightarrow> nat" where
  "slice_index n i = (if i < 0 then nat (max (int n + i) 0) else min (nat i) n)"

definition py_slice :: "pystr \<Rightarrow> int \<Rightarrow> int \<Rightarrow> pystr" where
  "py_slice s i j = take (slice_index (length s) j - slice_index (length s) i)
                         (drop (slice_index (length s) i) s)"

text \<open>\<open>str.isspace\<close> on one code point: the characters \<open>str.strip()\<close> removes.\<close>

definition isspace :: "nat \<Rightarrow> bool" where
  "isspace c = ((9 \<le> c \<and> c \<le> 13) \<or> (28 \<le> c \<and> c \<le> 32) \<or> c = 0x85 \<or> c = 0xA0
     \<or> c = 0x1680 \<or> (0x2000 \<le> c \<and> c \<le> 0x200A) \<or> c = 0x2028 \<or> c = 0x2029
     \<or> c = 0x202F \<or> c = 0x205F \<or> c = 0x3000)"

definition strip :: "pystr \<Rightarrow> pystr" where
  "strip s = rev (dropWhile isspace (rev (dropWhile isspace s)))"

subsection \<open>bytes.decode("utf-8")\<close>

text \<open>
  The strict UTF-8 codec: shortest forms only, no surrogates, nothing above U+10FFFF.
  \<open>None\<close> is \<open>UnicodeDecodeError\<close>.
\<close>

definition continuation :: "nat \<Rightarrow> bool" where
  "continuation b = (0x80 \<le> b \<and> b \<le> 0xBF)"

fun utf8_points :: "nat list \<Rightarrow> pystr option" where
  "utf8_points [] = Some []"
| "utf8_points (b # bs) =
     (if b < 0x80 then map_option (Cons b) (utf8_points bs)
      else if 0xC2 \<le> b \<and> b \<le> 0xDF then
        (case bs of
           b1 # r \<Rightarrow>
             if continuation b1
             then map_option (Cons ((b - 0xC0) * 0x40 + (b1 - 0x80))) (utf8_points r)
             else None
         | _ \<Rightarrow> None)
      else if 0xE0 \<le> b \<and> b \<le> 0xEF then
        (case bs of
           b1 # b2 # r \<Rightarrow>
             if (if b = 0xE0 then 0xA0 else 0x80) \<le> b1
                \<and> b1 \<le> (if b = 0xED then 0x9F else 0xBF) \<and> continuation b2
             then map_option
                    (Cons ((b - 0xE0) * 0x1000 + (b1 - 0x80) * 0x40 + (b2 - 0x80)))
                    (utf8_points r)
             else None
         | _ \<Rightarrow> None)
      else if 0xF0 \<le> b \<and> b \<le> 0xF4 then
        (case bs of
           b1 # b2 # b3 # r \<Rightarrow>
             if (if b = 0xF0 then 0x90 else 0x80) \<le> b1
                \<and> b1 \<le> (if b = 0xF4 then 0x8F else 0xBF)
                \<and> continuation b2 \<and> continuation b3
             then map_option
                    (Cons ((b - 0xF0) * 0x40000 + (b1 - 0x80) * 0x1000
                           + (b2 - 0x80) * 0x40 + (b3 - 0x80)))
                    (utf8_points r)
             else None
         | _ \<Rightarrow> None)
      else None)"

definition decode_utf8 :: "bytes \<Rightarrow> error + pystr" where
  "decode_utf8 bs = (case utf8_points (map unat bs) of
                       None \<Rightarrow> Inl UnicodeDecodeError
                     | Some s \<Rightarrow> Inr s)"

section \<open>json.loads\<close>

text \<open>
  The standard library's decoder (json/decoder.py, json/scanner.py), for a \<open>str\<close> argument
  and default options. The decoder reads one token at a time, skipping the JSON
  white space (space, tab, line feed, carriage return) between tokens; here the tokens
  are read first (\<open>tokens\<close>) and the nesting is followed with an explicit stack
  (\<open>decode_step\<close>). Every failure is one \<open>JSONDecodeError\<close>; its message and position are
  not modelled, its \<open>doc\<close> is. Not modelled: \<open>RecursionError\<close> on very deep nesting and the
  interpreter's limit on the digits of an \<open>int\<close>.
\<close>

abbreviation (input) QUOTE :: nat where "QUOTE \<equiv> 0x22"
abbreviation (input) BACKSLASH :: nat where "BACKSLASH \<equiv> 0x5C"

definition json_ws :: "nat \<Rightarrow> bool" where
  "json_ws c = (c = 0x20 \<or> c = 0x09 \<or> c = 0x0A \<or> c = 0x0D)"

definition is_digit :: "nat \<Rightarrow> bool" where
  "is_digit c = (0x30 \<le> c \<and> c \<le> 0x39)"

definition hexval :: "nat \<Rightarrow> nat option" where
  "hexval c = (if 0x30 \<le> c \<and> c \<le> 0x39 then Some (c - 0x30)
               else if 0x41 \<le> c \<and> c \<le> 0x46 then Some (c - 0x37)
               else if 0x61 \<le> c \<and> c \<le> 0x66 then Some (c - 0x57)
               else None)"

text \<open>\<open>_decode_uXXXX\<close>: the four hexadecimal digits after \<open>\u\<close>.\<close>

definition decode_uXXXX :: "pystr \<Rightarrow> nat option" where
  "decode_uXXXX s =
     (case s of
        a # b # c # d # _ \<Rightarrow>
          (case (hexval a, hexval b, hexval c, hexval d) of
             (Some w, Some x, Some y, Some z) \<Rightarrow> Some (((w * 16 + x) * 16 + y) * 16 + z)
           | _ \<Rightarrow> None)
      | _ \<Rightarrow> None)"

text \<open>The table \<open>BACKSLASH\<close> of the one-letter escapes.\<close>

definition backslash_escape :: "nat \<Rightarrow> nat option" where
  "backslash_escape e =
     (if e = QUOTE then Some QUOTE
      else if e = BACKSLASH then Some BACKSLASH
      else if e = 0x2F then Some 0x2F
      else if e = 0x62 then Some 0x08
      else if e = 0x66 then Some 0x0C
      else if e = 0x6E then Some 0x0A
      else if e = 0x72 then Some 0x0D
      else if e = 0x74 then Some 0x09
      else None)"

text \<open>
  \<open>scanstring\<close> (strict): the text after an opening quote, up to the closing one. It gives
  the decoded string and what follows the closing quote. A control character, an
  unknown escape or a missing closing quote is an error.
\<close>

fun scanstring :: "pystr \<Rightarrow> pystr \<Rightarrow> (pystr \<times> pystr) option" where
  "scanstring [] acc = None"
| "scanstring (c # cs) acc =
     (if c = QUOTE then Some (acc, cs)
      else if c = BACKSLASH then
        (case cs of
           [] \<Rightarrow> None
         | esc # r \<Rightarrow>
             if esc = 0x75 then
               (case decode_uXXXX r of
                  None \<Rightarrow> None
                | Some uni \<Rightarrow>
                    if 0xD800 \<le> uni \<and> uni \<le> 0xDBFF
                       \<and> startswith (drop 4 r) [BACKSLASH, 0x75]
                    then
                      (case decode_uXXXX (drop 6 r) of
                         None \<Rightarrow> None
                       | Some uni2 \<Rightarrow>
                           if 0xDC00 \<le> uni2 \<and> uni2 \<le> 0xDFFF
                           then scanstring (drop 10 r)
                                  (acc @ [0x10000 + (uni - 0xD800) * 0x400 + (uni2 - 0xDC00)])
                           else scanstring (drop 4 r) (acc @ [uni]))
                    else scanstring (drop 4 r) (acc @ [uni]))
             else
               (case backslash_escape esc of
                  None \<Rightarrow> None
                | Some ch \<Rightarrow> scanstring r (acc @ [ch])))
      else if c < 0x20 then None
      else scanstring cs (acc @ [c]))"

text \<open>
  \<open>NUMBER_RE\<close>, matched at the head of the text:
  \<^verbatim>\<open>(-?(?:0|[1-9][0-9]*))(\.[0-9]+)?([eE][-+]?[0-9]+)?\<close>.
  With a fraction or an exponent the value is a \<open>float\<close>, otherwise an \<open>int\<close>.
\<close>

definition int_of_digits :: "pystr \<Rightarrow> int" where
  "int_of_digits ds = foldl (\<lambda>a d. 10 * a + int (d - 0x30)) 0 ds"

definition match_frac :: "pystr \<Rightarrow> pystr \<times> pystr" where
  "match_frac s =
     (case s of
        c # r \<Rightarrow>
          if c = 0x2E \<and> takeWhile is_digit r \<noteq> []
          then (c # takeWhile is_digit r, dropWhile is_digit r)
          else ([], s)
      | [] \<Rightarrow> ([], s))"

definition match_exp :: "pystr \<Rightarrow> pystr \<times> pystr" where
  "match_exp s =
     (case s of
        c # r \<Rightarrow>
          if c = 0x65 \<or> c = 0x45 then
            (case r of
               g # r' \<Rightarrow>
                 if (g = 0x2D \<or> g = 0x2B) \<and> takeWhile is_digit r' \<noteq> []
                 then (c # g # takeWhile is_digit r', dropWhile is_digit r')
                 else if takeWhile is_digit r \<noteq> []
                 then (c # takeWhile is_digit r, dropWhile is_digit r)
                 else ([], s)
             | [] \<Rightarrow> ([], s))
          else ([], s)
      | [] \<Rightarrow> ([], s))"

definition match_integer :: "pystr \<Rightarrow> (pystr \<times> pystr) option" where
  "match_integer s =
     (case s of
        [] \<Rightarrow> None
      | d # r \<Rightarrow>
          if d = 0x30 then Some ([d], r)
          else if 0x31 \<le> d \<and> d \<le> 0x39
          then Some (d # takeWhile is_digit r, dropWhile is_digit r)
          else None)"

definition match_number :: "pystr \<Rightarrow> (json \<times> pystr) option" where
  "match_number s =
     (let neg = (s \<noteq> [] \<and> hd s = 0x2D) in
      case match_integer (if neg then tl s else s) of
        None \<Rightarrow> None
      | Some (ds, r) \<Rightarrow>
          (case match_frac r of
             (frac, r') \<Rightarrow>
               (case match_exp r' of
                  (ex, r'') \<Rightarrow>
                    if frac = [] \<and> ex = []
                    then Some (PyInt (if neg then - int_of_digits ds else int_of_digits ds), r'')
                    else Some (PyFloat ((if neg then [0x2D] else []) @ ds @ frac @ ex), r''))))"

datatype token = LBrace | RBrace | LBracket | RBracket | Colon | Comma | Value json

lemma scanstring_length: "scanstring s acc = Some (v, r) \<Longrightarrow> length r < length s"
  by (induction s acc arbitrary: v r rule: scanstring.induct)
     (fastforce split: if_splits list.splits option.splits)+

lemma match_frac_length: "match_frac x = (a, b) \<Longrightarrow> length b \<le> length x"
  by (auto simp: match_frac_def split: list.splits if_splits
           intro: le_SucI length_dropWhile_le)

lemma match_exp_length: "match_exp x = (a, b) \<Longrightarrow> length b \<le> length x"
  by (auto simp: match_exp_def split: list.splits if_splits
           intro: le_SucI length_dropWhile_le)

lemma match_integer_length: "match_integer x = Some (a, b) \<Longrightarrow> length b < length x"
  by (auto simp: match_integer_def less_Suc_eq_le split: list.splits if_splits
           intro: length_dropWhile_le)

lemma match_number_length: "match_number s = Some (v, r) \<Longrightarrow> length r < length s"
proof -
  assume "match_number s = Some (v, r)"
  then obtain ds r0 frac r1 ex where
    a: "match_integer (if s \<noteq> [] \<and> hd s = 0x2D then tl s else s) = Some (ds, r0)"
    and b: "match_frac r0 = (frac, r1)" and c: "match_exp r1 = (ex, r)"
    by (auto simp: match_number_def Let_def split: option.splits prod.splits if_splits)
  have "length r0 < length s"
    using match_integer_length [OF a] by (cases s) (auto split: if_splits)
  with match_frac_length [OF b] match_exp_length [OF c] show ?thesis by simp
qed

function tokens :: "pystr \<Rightarrow> token list option" where
  "tokens [] = Some []"
| "tokens (c # cs) =
     (if json_ws c then tokens cs
      else if c = QUOTE then
        (case scanstring cs [] of
           None \<Rightarrow> None
         | Some (s, r) \<Rightarrow> map_option (Cons (Value (PyStr s))) (tokens r))
      else if c = 0x7B then map_option (Cons LBrace) (tokens cs)
      else if c = 0x7D then map_option (Cons RBrace) (tokens cs)
      else if c = 0x5B then map_option (Cons LBracket) (tokens cs)
      else if c = 0x5D then map_option (Cons RBracket) (tokens cs)
      else if c = 0x3A then map_option (Cons Colon) (tokens cs)
      else if c = 0x2C then map_option (Cons Comma) (tokens cs)
      else if startswith (c # cs) (ustr ''null'')
      then map_option (Cons (Value PyNone)) (tokens (drop 3 cs))
      else if startswith (c # cs) (ustr ''true'')
      then map_option (Cons (Value (PyBool True))) (tokens (drop 3 cs))
      else if startswith (c # cs) (ustr ''false'')
      then map_option (Cons (Value (PyBool False))) (tokens (drop 4 cs))
      else
        (case match_number (c # cs) of
           Some (v, r) \<Rightarrow> map_option (Cons (Value v)) (tokens r)
         | None \<Rightarrow>
             if startswith (c # cs) (ustr ''NaN'')
             then map_option (Cons (Value (PyFloat (ustr ''NaN'')))) (tokens (drop 2 cs))
             else if startswith (c # cs) (ustr ''Infinity'')
             then map_option (Cons (Value (PyFloat (ustr ''Infinity'')))) (tokens (drop 7 cs))
             else if startswith (c # cs) (ustr ''-Infinity'')
             then map_option (Cons (Value (PyFloat (ustr ''-Infinity'')))) (tokens (drop 8 cs))
             else None))"
  by pat_completeness auto
termination
  by (relation "measure length")
     (auto dest: scanstring_length match_number_length)

text \<open>
  \<open>dict(pairs)\<close>: a key seen again keeps its place and takes the new value.
\<close>

fun dict_setitem :: "(pystr \<times> json) list \<Rightarrow> pystr \<Rightarrow> json \<Rightarrow> (pystr \<times> json) list" where
  "dict_setitem [] k v = [(k, v)]"
| "dict_setitem ((k', v') # d) k v =
     (if k' = k then (k, v) # d else (k', v') # dict_setitem d k v)"

text \<open>
  The nesting, as \<open>JSONArray\<close> and \<open>JSONObject\<close> follow it. A frame is an enclosing
  container that waits for a value: a list with the items so far, or a dict with
  the pairs so far and the key just read. The state says which token may come next.
\<close>

datatype frame =
    InList "json list"
  | InDict "(pystr \<times> json) list" pystr

datatype decoder =
    ExpectValue "frame list"
  | ExpectValueOrEnd "frame list"
  | ExpectCommaInList "json list" "frame list"
  | ExpectKeyOrEnd "frame list"
  | ExpectKey "(pystr \<times> json) list" "frame list"
  | ExpectColon "(pystr \<times> json) list" pystr "frame list"
  | ExpectCommaInDict "(pystr \<times> json) list" "frame list"
  | Done json

fun deliver :: "json \<Rightarrow> frame list \<Rightarrow> decoder" where
  "deliver v [] = Done v"
| "deliver v (InList xs # st) = ExpectCommaInList (xs @ [v]) st"
| "deliver v (InDict d k # st) = ExpectCommaInDict (dict_setitem d k v) st"

fun scan_value :: "frame list \<Rightarrow> token \<Rightarrow> decoder option" where
  "scan_value st (Value v) = Some (deliver v st)"
| "scan_value st LBracket = Some (ExpectValueOrEnd st)"
| "scan_value st LBrace = Some (ExpectKeyOrEnd st)"
| "scan_value st _ = None"

fun decode_step :: "decoder \<Rightarrow> token \<Rightarrow> decoder option" where
  "decode_step (ExpectValue st) t = scan_value st t"
| "decode_step (ExpectValueOrEnd st) t =
     (if t = RBracket then Some (deliver (PyList []) st) else scan_value (InList [] # st) t)"
| "decode_step (ExpectCommaInList xs st) t =
     (if t = RBracket then Some (deliver (PyList xs) st)
      else if t = Comma then Some (ExpectValue (InList xs # st))
      else None)"
| "decode_step (ExpectKeyOrEnd st) t =
     (case t of
        RBrace \<Rightarrow> Some (deliver (PyDict []) st)
      | Value (PyStr k) \<Rightarrow> Some (ExpectColon [] k st)
      | _ \<Rightarrow> None)"
| "decode_step (ExpectKey d st) t =
     (case t of
        Value (PyStr k) \<Rightarrow> Some (ExpectColon d k st)
      | _ \<Rightarrow> None)"
| "decode_step (ExpectColon d k st) t =
     (if t = Colon then Some (ExpectValue (InDict d k # st)) else None)"
| "decode_step (ExpectCommaInDict d st) t =
     (if t = RBrace then Some (deliver (PyDict d) st)
      else if t = Comma then Some (ExpectKey d st)
      else None)"
| "decode_step (Done v) t = None"

fun decode_tokens :: "decoder \<Rightarrow> token list \<Rightarrow> json option" where
  "decode_tokens (Done v) [] = Some v"
| "decode_tokens _ [] = None"
| "decode_tokens q (t # ts) =
     (case decode_step q t of None \<Rightarrow> None | Some q' \<Rightarrow> decode_tokens q' ts)"

definition json_loads :: "pystr \<Rightarrow> error + json" where
  "json_loads s =
     (if startswith s [0xFEFF] then Inl (JSONDecodeError s)
      else
        (case tokens s of
           None \<Rightarrow> Inl (JSONDecodeError s)
         | Some ts \<Rightarrow>
             (case decode_tokens (ExpectValue []) ts of
                None \<Rightarrow> Inl (JSONDecodeError s)
              | Some v \<Rightarrow> Inr v)))"

subsection \<open>Operations of main.py on the decoded value\<close>

text \<open>\<open>obj[key]\<close> for a \<open>str\<close> key: only a \<open>dict\<close> takes it, and a missing key raises.\<close>

definition getitem :: "json \<Rightarrow> pystr \<Rightarrow> error + json" where
  "getitem obj k =
     (case obj of
        PyDict d \<Rightarrow> (case map_of d k of None \<Rightarrow> Inl (KeyError k) | Some v \<Rightarrow> Inr v)
      | _ \<Rightarrow> Inl TypeError)"

text \<open>
  What \<open>for x in obj\<close> visits: the items of a \<open>list\<close>, the keys of a \<open>dict\<close>, the
  characters of a \<open>str\<close>; nothing else is iterable.
\<close>

definition iter_items :: "json \<Rightarrow> error + json list" where
  "iter_items obj =
     (case obj of
        PyList xs \<Rightarrow> Inr xs
      | PyDict d \<Rightarrow> Inr (map (\<lambda>kv. PyStr (fst kv)) d)
      | PyStr s \<Rightarrow> Inr (map (\<lambda>c. PyStr [c]) s)
      | _ \<Rightarrow> Inl TypeError)"

text \<open>\<open>obj + s\<close> for a \<open>str\<close> \<open>s\<close>: only a \<open>str\<close> on the left concatenates.\<close>

definition add_str :: "json \<Rightarrow> pystr \<Rightarrow> error + pystr" where
  "add_str obj s = (case obj of PyStr t \<Rightarrow> Inr (t @ s) | _ \<Rightarrow> Inl TypeError)"

section \<open>Effects\<close>

text \<open>
  A run of a function is the list of effects it had, in order, and how it ended: an
  exception (\<open>Inl\<close>) or a value (\<open>Inr\<close>). The effects are the log lines, the lines
  printed and the calls to the external services.
\<close>

datatype event =
    LogInfo string
  | LogError string error
  | NewImageAnnotatorClient
  | NewPortkey "pystr option"
  | AnnotateFiles "pystr option" "pystr option" pystr nat
  | OperationResult nat
  | NewStorageClient
  | ListBlobs pystr pystr
  | Download pystr
  | CompletionsCreate "pystr option" pystr
  | Print string
  | PrintJsonDumps json nat

type_synonym 'a run = "event list \<times> (error + 'a)"

definition return :: "'a \<Rightarrow> 'a run" where
  "return x = ([], Inr x)"

definition raise :: "error \<Rightarrow> 'a run" where
  "raise e = ([], Inl e)"

definition lift :: "error + 'a \<Rightarrow> 'a run" where
  "lift r = ([], r)"

definition emit :: "event \<Rightarrow> unit run" where
  "emit ev = ([ev], Inr ())"

definition call :: "event \<Rightarrow> error + 'a \<Rightarrow> 'a run" where
  "call ev outcome = ([ev], outcome)"

text \<open>One statement after another: an exception ends the sequence.\<close>

definition seq :: "'a run \<Rightarrow> ('a \<Rightarrow> 'b run) \<Rightarrow> 'b run" where
  "seq m f =
     (case m of
        (t, Inl e) \<Rightarrow> (t, Inl e)
      | (t, Inr x) \<Rightarrow> (case f x of (t', r) \<Rightarrow> (t @ t', r)))"

text \<open>\<open>try: m except C as e: h e\<close>, where \<open>handles\<close> says which exceptions are of class \<open>C\<close>.\<close>

definition try_except :: "'a run \<Rightarrow> (error \<Rightarrow> bool) \<Rightarrow> (error \<Rightarrow> 'a run) \<Rightarrow> 'a run" where
  "try_except m handles h =
     (case m of
        (t, Inl e) \<Rightarrow>
          if handles e then (case h e of (t', r) \<Rightarrow> (t @ t', r)) else (t, Inl e)
      | (t, Inr x) \<Rightarrow> (t, Inr x))"

definition is_ValidationError :: "error \<Rightarrow> bool" where
  "is_ValidationError e = (e = ValidationError)"

definition is_Exception :: "error \<Rightarrow> bool" where
  "is_Exception e = True"

section \<open>The external services\<close>

text \<open>
  A blob of the object store: its name, and what \<open>download_as_bytes()\<close> gives.
\<close>

record blob =
  name :: pystr
  download_as_bytes :: "error + bytes"

text \<open>The completion the gateway returns; only \<open>choices[0].message.content\<close> is read.\<close>

record message =
  content :: "pystr option"

record choice =
  message :: message

record completion =
  choices :: "choice list"

text \<open>
  The outcome of every call main.py makes to a client library: the constructors of the
  two clients, the OCR request (it returns an operation, and \<open>operation.result(timeout)\<close>
  raises or returns), the storage client, the listing of a bucket under a prefix
  (\<open>get_bucket\<close> then \<open>list_blobs\<close>) and the gateway's completion.
\<close>

type_synonym operation = "nat \<Rightarrow> error + unit"

record world =
  ImageAnnotatorClient :: "error + unit"
  Portkey :: "pystr option \<Rightarrow> error + unit"
  async_batch_annotate_files :: "pystr option \<Rightarrow> pystr option \<Rightarrow> pystr \<Rightarrow> nat \<Rightarrow> error + operation"
  storage_Client :: "error + unit"
  list_blobs :: "pystr \<Rightarrow> pystr \<Rightarrow> error + blob list"
  completions_create :: "pystr option \<Rightarrow> pystr \<Rightarrow> error + completion"

section \<open>GoogleVisionClient\<close>

text \<open>
  \<open>re.match(r"gs://([^/]+)/(.+)", uri)\<close>: the two groups, or \<open>None\<close>. The first group is
  the longest run without a slash, the second the longest run without a line feed.
\<close>

definition match_gs_uri :: "pystr \<Rightarrow> (pystr \<times> pystr) option" where
  "match_gs_uri uri =
     (if startswith uri (ustr ''gs://'') then
        (let rest = drop 5 uri;
             bucket = takeWhile (\<lambda>c. c \<noteq> 0x2F) rest;
             after = dropWhile (\<lambda>c. c \<noteq> 0x2F) rest;
             prefix = takeWhile (\<lambda>c. c \<noteq> 0x0A) (tl after)
         in if bucket \<noteq> [] \<and> after \<noteq> [] \<and> prefix \<noteq> [] then Some (bucket, prefix) else None)
      else None)"

text \<open>
  \<open>match.group(1)\<close>, \<open>match.group(2)\<close>: \<open>re.match\<close> raises \<open>TypeError\<close> on \<open>None\<close>, and a
  failed match is \<open>None\<close>, which has no \<open>group\<close>.
\<close>

definition destination_groups :: "pystr option \<Rightarrow> error + pystr \<times> pystr" where
  "destination_groups uri =
     (case uri of
        None \<Rightarrow> Inl TypeError
      | Some u \<Rightarrow> (case match_gs_uri u of None \<Rightarrow> Inl AttributeError | Some g \<Rightarrow> Inr g))"

definition async_detect_document ::
  "world \<Rightarrow> pystr option \<Rightarrow> pystr option \<Rightarrow> pystr \<Rightarrow> nat \<Rightarrow> blob list run" where
  "async_detect_document w gcs_source_uri gcs_destination_uri mime_type batch_size =
     seq (call (AnnotateFiles gcs_source_uri gcs_destination_uri mime_type batch_size)
            (async_batch_annotate_files w gcs_source_uri gcs_destination_uri mime_type batch_size))
       (\<lambda>operation.
     seq (emit (LogInfo ''Waiting for the operation to finish.'')) (\<lambda>_.
     seq (call (OperationResult 420) (operation 420)) (\<lambda>_.
     seq (call NewStorageClient (storage_Client w)) (\<lambda>_.
     seq (lift (destination_groups gcs_destination_uri)) (\<lambda>(bucket_name, prefix).
     seq (call (ListBlobs bucket_name prefix) (list_blobs w bucket_name prefix)) (\<lambda>listed.
     return (filter (\<lambda>blob. \<not> endswith (name blob) [0x2F]) listed)))))))"

section \<open>TextExtractor\<close>

text \<open>The inner loop, over the pages of one blob; \<open>combined_text\<close> is the accumulator.\<close>

fun page_loop :: "json list \<Rightarrow> pystr \<Rightarrow> error + pystr" where
  "page_loop [] combined_text = Inr combined_text"
| "page_loop (page_response # rest) combined_text =
     (case getitem page_response (ustr ''fullTextAnnotation'') of
        Inl e \<Rightarrow> Inl e
      | Inr annotation \<Rightarrow>
          (case getitem annotation (ustr ''text'') of
             Inl e \<Rightarrow> Inl e
           | Inr t \<Rightarrow>
               (case add_str t [0x0A] of
                  Inl e \<Rightarrow> Inl e
                | Inr line \<Rightarrow> page_loop rest (combined_text @ line))))"

text \<open>The body of the \<open>try\<close>, for one blob.\<close>

definition try_body :: "pystr \<Rightarrow> pystr \<Rightarrow> error + pystr" where
  "try_body json_string combined_text =
     (case json_loads json_string of
        Inl e \<Rightarrow> Inl e
      | Inr response \<Rightarrow>
          (case getitem response (ustr ''responses'') of
             Inl e \<Rightarrow> Inl e
           | Inr responses \<Rightarrow>
               (case iter_items responses of
                  Inl e \<Rightarrow> Inl e
                | Inr pages \<Rightarrow> page_loop pages combined_text)))"

text \<open>The outer loop, over the blobs, and the statements after it.\<close>

fun blob_loop :: "blob list \<Rightarrow> pystr \<Rightarrow> pystr run" where
  "blob_loop [] combined_text =
     seq (emit (LogInfo ''Combined text extracted successfully.'')) (\<lambda>_. return combined_text)"
| "blob_loop (blob # rest) combined_text =
     seq (call (Download (name blob)) (download_as_bytes blob)) (\<lambda>raw.
     seq (lift (decode_utf8 raw)) (\<lambda>json_string.
     seq (try_except (lift (try_body json_string combined_text)) is_ValidationError
            (\<lambda>e. seq (emit (LogError ''Validation error in JSON response: '' e)) (\<lambda>_. raise e)))
       (\<lambda>combined_text'. blob_loop rest combined_text')))"

definition get_combined_extract_text :: "blob list \<Rightarrow> pystr run" where
  "get_combined_extract_text blob_list = blob_loop blob_list []"

section \<open>PortkeyClient\<close>

definition send_to_portkey :: "world \<Rightarrow> pystr option \<Rightarrow> pystr \<Rightarrow> completion run" where
  "send_to_portkey w prompt_id text =
     seq (emit (LogInfo ''Sending request to Portkey with payload.'')) (\<lambda>_.
     try_except
       (seq (call (CompletionsCreate prompt_id text) (completions_create w prompt_id text))
          (\<lambda>response.
        seq (emit (LogInfo ''Portkey response received.'')) (\<lambda>_.
        return response)))
       is_Exception
       (\<lambda>e. seq (emit (LogError ''Error sending request to Portkey: '' e)) (\<lambda>_. raise e)))"

section \<open>DocumentProcessor\<close>

text \<open>\<open>response.choices[0].message.content\<close>.\<close>

definition first_content :: "completion \<Rightarrow> error + pystr option" where
  "first_content response =
     (case choices response of
        [] \<Rightarrow> Inl IndexError
      | c # _ \<Rightarrow> Inr (content (message c)))"

text \<open>The two statements that remove the Markdown fence.\<close>

definition remove_code_block :: "pystr \<Rightarrow> pystr" where
  "remove_code_block c =
     (if startswith c (ustr ''```json'') \<and> endswith c (ustr ''```'')
      then strip (py_slice c 7 (- 3))
      else c)"

definition parse_and_validate_response :: "completion \<Rightarrow> json run" where
  "parse_and_validate_response response =
     seq (lift (first_content response)) (\<lambda>content0.
       case content0 of
         None \<Rightarrow> raise AttributeError
       | Some c \<Rightarrow>
           try_except
             (seq (lift (json_loads (remove_code_block c))) (\<lambda>extracted_json.
              seq (emit (LogInfo ''Extracted JSON validated successfully.'')) (\<lambda>_.
              return extracted_json)))
             is_ValidationError
             (\<lambda>e. seq (emit (LogError ''Validation error in extracted JSON: '' e))
                     (\<lambda>_. raise e)))"

definition process_document ::
  "world \<Rightarrow> pystr option \<Rightarrow> pystr option \<Rightarrow> pystr option \<Rightarrow> json run" where
  "process_document w gcs_source_uri gcs_destination_uri prompt_id =
     seq (async_detect_document w gcs_source_uri gcs_destination_uri
            (ustr ''application/pdf'') 2) (\<lambda>blob_list.
     seq (get_combined_extract_text blob_list) (\<lambda>combined_text.
     seq (send_to_portkey w prompt_id combined_text) (\<lambda>response.
     parse_and_validate_response response)))"

section \<open>main\<close>



section \<open>Inputs and notions of the specification\<close>

text \<open>A completion with one choice, whose content is the given text.\<close>

definition completion_of :: "pystr \<Rightarrow> completion" where
  "completion_of c = \<lparr>choices = [\<lparr>message = \<lparr>content = Some c\<rparr>\<rparr>]\<rparr>"

text \<open>
  What a successful parse gives for a document: the log line and the value; and what
  a failed one gives: nothing logged, the decoder's exception.
\<close>

definition parse_outcome :: "pystr \<Rightarrow> json run" where
  "parse_outcome doc =
     (case json_loads doc of
        Inl e \<Rightarrow> ([], Inl e)
      | Inr j \<Rightarrow> ([LogInfo ''Extracted JSON validated successfully.''], Inr j))"

text \<open>A blob whose download gives the given ASCII payload.\<close>

definition blob_with :: "string \<Rightarrow> string \<Rightarrow> blob" where
  "blob_with n payload = \<lparr>name = ustr n, download_as_bytes = Inr (to_bytes payload)\<rparr>"

text \<open>
  The notions of the specification of text combination. \<open>page_text\<close> is the
  \<open>fullTextAnnotation.text\<close> field of a page, when the page has one and it is a string;
  \<open>payload_text\<close> is the payload of a blob decoded as UTF-8; \<open>payload_pages\<close> is the
  \<open>responses\<close> list of a payload that is a JSON object with such a list; \<open>blob_texts\<close> are
  the texts of the pages of a well-formed blob, in order, and \<open>None\<close> for a blob that is
  not well-formed. \<open>lines_of\<close> puts a line feed after each text.
\<close>

definition page_text :: "json \<Rightarrow> pystr option" where
  "page_text page =
     (case page of
        PyDict d \<Rightarrow>
          (case map_of d (ustr ''fullTextAnnotation'') of
             Some (PyDict a) \<Rightarrow>
               (case map_of a (ustr ''text'') of Some (PyStr t) \<Rightarrow> Some t | _ \<Rightarrow> None)
           | _ \<Rightarrow> None)
      | _ \<Rightarrow> None)"

definition has_annotation :: "json \<Rightarrow> bool" where
  "has_annotation page =
     (case page of
        PyDict d \<Rightarrow> map_of d (ustr ''fullTextAnnotation'') \<noteq> None
      | _ \<Rightarrow> False)"

definition payload_text :: "blob \<Rightarrow> pystr option" where
  "payload_text b =
     (case download_as_bytes b of
        Inl _ \<Rightarrow> None
      | Inr raw \<Rightarrow> (case decode_utf8 raw of Inl _ \<Rightarrow> None | Inr s \<Rightarrow> Some s))"

definition payload_pages :: "blob \<Rightarrow> json list option" where
  "payload_pages b =
     (case payload_text b of
        None \<Rightarrow> None
      | Some s \<Rightarrow>
          (case json_loads s of
             Inr (PyDict d) \<Rightarrow>
               (case map_of d (ustr ''responses'') of Some (PyList ps) \<Rightarrow> Some ps | _ \<Rightarrow> None)
           | _ \<Rightarrow> None))"

definition blob_texts :: "blob \<Rightarrow> pystr list option" where
  "blob_texts b =
     (case payload_pages b of None \<Rightarrow> None | Some ps \<Rightarrow> those (map page_text ps))"

definition lines_of :: "pystr list \<Rightarrow> pystr" where
  "lines_of ts = concat (map (\<lambda>t. t @ [0x0A]) ts)"

text \<open>The three defects of a blob that the specification names.\<close>

definition fails_decoding :: "blob \<Rightarrow> bool" where
  "fails_decoding b =
     (case download_as_bytes b of
        Inl _ \<Rightarrow> False
      | Inr raw \<Rightarrow> (case decode_utf8 raw of Inl _ \<Rightarrow> True | Inr _ \<Rightarrow> False))"

definition malformed_json :: "blob \<Rightarrow> bool" where
  "malformed_json b =
     (case payload_text b of
        None \<Rightarrow> False
      | Some s \<Rightarrow> (case json_loads s of Inl _ \<Rightarrow> True | Inr _ \<Rightarrow> False))"

definition page_lacks_annotation :: "blob \<Rightarrow> bool" where
  "page_lacks_annotation b =
     (case payload_pages b of
        None \<Rightarrow> False
      | Some ps \<Rightarrow> list_ex (\<lambda>p. \<not> has_annotation p) ps)"

text \<open>Blobs used as examples: well-formed ones, and one for each defect.\<close>

definition page1_blob :: blob where
  \<open>page1_blob = blob_with ''output-1-to-1.json''
     ''{"responses":[{"fullTextAnnotation":{"text":"Page1"}}]}''\<close>

definition page2_blob :: blob where
  \<open>page2_blob = blob_with ''output-2-to-2.json''
     ''{"responses":[{"fullTextAnnotation":{"text":"Page2"}}]}''\<close>



definition blank_page_blob :: blob where
  \<open>blank_page_blob = blob_with ''output-3-to-3.json'' ''{"responses":[{}]}''\<close>

definition truncated_blob :: blob where
  \<open>truncated_blob = blob_with ''output-4-to-4.json'' ''{"responses":[''\<close>

definition latin1_blob :: blob where
  \<open>latin1_blob = \<lparr>name = ustr ''output-5-to-5.json'', download_as_bytes = Inr [0x22, 0xE9, 0x22]\<rparr>\<close>

text \<open>The effects of downloading the blobs, in order.\<close>

abbreviation downloads :: "blob list \<Rightarrow> event list" where
  "downloads bs \<equiv> map (\<lambda>b. Download (name b)) bs"

text \<open>Kinds of effects: the OCR request, the gateway request, a line on standard output, an error in the log.\<close>

definition is_ocr_request :: "event \<Rightarrow> bool" where
  "is_ocr_request ev = (case ev of AnnotateFiles _ _ _ _ \<Rightarrow> True | _ \<Rightarrow> False)"

definition is_completion_request :: "event \<Rightarrow> bool" where
  "is_completion_request ev = (case ev of CompletionsCreate _ _ \<Rightarrow> True | _ \<Rightarrow> False)"

definition is_print :: "event \<Rightarrow> bool" where
  "is_print ev = (case ev of Print _ \<Rightarrow> True | PrintJsonDumps _ _ \<Rightarrow> True | _ \<Rightarrow> False)"

definition is_log_error :: "event \<Rightarrow> bool" where
  "is_log_error ev = (case ev of LogError _ _ \<Rightarrow> True | _ \<Rightarrow> False)"

text \<open>
  Example worlds: the OCR service refuses an absent source, the operation finishes or
  times out, the store lists the given blobs, the gateway gives the given reply.
  \<open>full_env\<close> sets the four variables, \<open>env_without_input\<close> all but the input location.
  \<open>startup\<close> and \<open>ending\<close> are what \<open>main\<close> does before and after \<open>process_document\<close>.
\<close>

definition finished :: operation where
  "finished = (\<lambda>timeout. Inr ())"

definition timed_out :: operation where
  "timed_out = (\<lambda>timeout. Inl (ServiceError 504))"

definition example_world :: "operation \<Rightarrow> blob list \<Rightarrow> error + completion \<Rightarrow> world" where
  "example_world operation listed reply =
     \<lparr>ImageAnnotatorClient = Inr (),
      Portkey = (\<lambda>api_key. Inr ()),
      async_batch_annotate_files =
        (\<lambda>src dst mime batch.
           case src of None \<Rightarrow> Inl (ServiceError 400) | Some _ \<Rightarrow> Inr operation),
      storage_Client = Inr (),
      list_blobs = (\<lambda>bucket prefix. Inr listed),
      completions_create = (\<lambda>prompt text. reply)\<rparr>"

definition directory_marker :: blob where
  "directory_marker = \<lparr>name = ustr ''out/'', download_as_bytes = Inr []\<rparr>"





section \<open>Properties\<close>

subsection \<open>Shared facts\<close>

lemmas run_defs = seq_def try_except_def lift_def emit_def call_def return_def raise_def
  is_ValidationError_def is_Exception_def

lemmas eval_defs = json_loads_def startswith_def endswith_def ustr_def json_ws_def is_digit_def
  match_number_def match_integer_def match_frac_def match_exp_def int_of_digits_def
  remove_code_block_def strip_def isspace_def py_slice_def slice_index_def
  parse_outcome_def backslash_escape_def

lemma json_loads_error: "json_loads s = Inl e \<Longrightarrow> e = JSONDecodeError s"
  by (auto simp: json_loads_def split: if_splits option.splits)

lemma first_content_completion_of: "first_content (completion_of c) = Inr (Some c)"
  by (simp add: first_content_def completion_of_def)

lemma parse_content:
  "first_content response = Inr (Some c) \<Longrightarrow>
   parse_and_validate_response response = parse_outcome (remove_code_block c)"
  by (auto simp: parse_and_validate_response_def parse_outcome_def run_defs
           split: sum.splits dest: json_loads_error)

lemma parse_completion_of:
  "parse_and_validate_response (completion_of c) = parse_outcome (remove_code_block c)"
  by (rule parse_content) (rule first_content_completion_of)

lemma short_list_cases:
  "length (r::'a list) < 3 \<Longrightarrow> r = [] \<or> (\<exists>a. r = [a]) \<or> (\<exists>a b. r = [a, b])"
  by (auto simp: numeral_3_eq_3 less_Suc_eq length_Suc_conv)

lemma slice_7_m3:
  "10 \<le> length c \<Longrightarrow> py_slice c 7 (- 3) = take (length c - 10) (drop 7 c)"
proof -
  assume a: "10 \<le> length c"
  have "nat (max (int (length c) + - 3) 0) = length c - 3"
    using a by linarith
  moreover have "min (nat 7) (length c) = 7"
    using a by simp
  moreover have "length c - 3 - 7 = length c - 10"
    by simp
  ultimately show ?thesis
    by (simp only: py_slice_def slice_index_def) simp
qed

text \<open>
  A text that starts with the open fence and ends with the close fence has at least ten
  characters, the two fences do not overlap, and the slice is what lies between them.
\<close>

lemma fenced_shape:
  assumes "startswith c (ustr ''```json'')" and "endswith c (ustr ''```'')"
  shows "\<exists>mid. c = ustr ''```json'' @ mid @ ustr ''```'' \<and> py_slice c 7 (- 3) = mid"
proof -
  define r where "r = drop 7 c"
  have "take (length (ustr ''```json'')) c = ustr ''```json''"
    using assms(1) by (simp only: startswith_def)
  moreover have l7: "length (ustr ''```json'') = 7"
    by (simp add: ustr_def)
  ultimately have "take 7 c = ustr ''```json''" by simp
  then have c: "c = ustr ''```json'' @ r"
    unfolding r_def using append_take_drop_id [of 7 c] by simp
  have l3: "length (ustr ''```'') = 3"
    by (simp add: ustr_def)
  have e: "drop (length c - 3) c = ustr ''```''"
    using assms(2) l3 by (simp add: endswith_def)
  have lc: "length c = 7 + length r"
    using c l7 by (metis length_append)
  have r3: "3 \<le> length r"
  proof (rule ccontr)
    assume "\<not> 3 \<le> length r"
    then have "r = [] \<or> (\<exists>a. r = [a]) \<or> (\<exists>a b. r = [a, b])"
      using short_list_cases [of r] by simp
    then show False
      using e c by (auto simp: ustr_def)
  qed
  define mid where "mid = take (length r - 3) r"
  have "drop (length c - 3) c = drop (length r - 3) r"
    using r3 lc l7 by (subst c) simp
  then have "drop (length r - 3) r = ustr ''```''"
    using e by simp
  then have "mid @ ustr ''```'' = take (length r - 3) r @ drop (length r - 3) r"
    unfolding mid_def by (simp only:)
  also have "\<dots> = r"
    by (rule append_take_drop_id)
  finally have "r = mid @ ustr ''```''"
    by (rule sym)
  moreover have "py_slice c 7 (- 3) = mid"
  proof -
    have "10 \<le> length c" and k: "length c - 10 = length r - 3"
      using r3 lc by linarith+
    then have "py_slice c 7 (- 3) = take (length r - 3) (drop 7 c)"
      by (simp only: slice_7_m3)
    then show ?thesis
      by (simp only: mid_def r_def)
  qed
  ultimately show ?thesis using c by blast
qed

subsection \<open>Facts about text combination\<close>

lemma page_step:
  "page_text p = Some t \<Longrightarrow> page_loop (p # ps) acc = page_loop ps (acc @ t @ [0x0A])"
  by (auto simp: page_text_def getitem_def add_str_def split: json.splits option.splits)

lemma page_loop_texts:
  "those (map page_text ps) = Some ts \<Longrightarrow> page_loop ps acc = Inr (acc @ lines_of ts)"
proof (induction ps arbitrary: acc ts)
  case Nil
  then show ?case by (simp add: lines_of_def)
next
  case (Cons p ps)
  from Cons.prems obtain t ts' where p: "page_text p = Some t"
      and r: "those (map page_text ps) = Some ts'" and ts: "ts = t # ts'"
    by (auto split: option.splits)
  have "page_loop (p # ps) acc = page_loop ps (acc @ t @ [0x0A])"
    using p by (rule page_step)
  also have "\<dots> = Inr ((acc @ t @ [0x0A]) @ lines_of ts')"
    using r by (rule Cons.IH)
  finally show ?case
    by (simp add: ts lines_of_def)
qed

lemma page_loop_not_validation: "page_loop ps acc \<noteq> Inl ValidationError"
  by (induction ps arbitrary: acc)
     (auto simp: getitem_def add_str_def split: sum.splits json.splits option.splits)

lemma try_body_not_validation: "try_body s acc \<noteq> Inl ValidationError"
  by (auto simp: try_body_def getitem_def iter_items_def page_loop_not_validation
           split: sum.splits json.splits option.splits dest: json_loads_error)

lemma page_loop_fails:
  "p \<in> set ps \<Longrightarrow> \<not> has_annotation p \<Longrightarrow> \<exists>e. page_loop ps acc = Inl e"
proof (induction ps arbitrary: acc)
  case Nil
  then show ?case by simp
next
  case (Cons q ps)
  show ?case
  proof (cases "q = p")
    case True
    then have "\<exists>e. getitem q (ustr ''fullTextAnnotation'') = Inl e"
      using Cons.prems(2)
      by (auto simp: has_annotation_def getitem_def split: json.splits option.splits)
    then show ?thesis by auto
  next
    case False
    then have "p \<in> set ps" using Cons.prems(1) by simp
    then have "\<And>acc'. \<exists>e. page_loop ps acc' = Inl e"
      using Cons.IH Cons.prems(2) by blast
    then show ?thesis
      by (auto split: sum.splits)
  qed
qed

text \<open>One turn of the outer loop.\<close>

lemma blob_step:
  "blob_loop (b # bs) acc =
     (case download_as_bytes b of
        Inl e \<Rightarrow> ([Download (name b)], Inl e)
      | Inr raw \<Rightarrow>
          (case decode_utf8 raw of
             Inl e \<Rightarrow> ([Download (name b)], Inl e)
           | Inr s \<Rightarrow>
               (case try_body s acc of
                  Inl e \<Rightarrow> ([Download (name b)], Inl e)
                | Inr acc' \<Rightarrow>
                    (Download (name b) # fst (blob_loop bs acc'), snd (blob_loop bs acc')))))"
  using try_body_not_validation
  by (auto simp: run_defs split: sum.splits prod.splits)

declare blob_loop.simps(2) [simp del]

lemma blob_step_cases:
  "(\<exists>e. blob_loop (b # bs) acc = ([Download (name b)], Inl e))
   \<or> (\<exists>acc'. blob_loop (b # bs) acc
               = (Download (name b) # fst (blob_loop bs acc'), snd (blob_loop bs acc')))"
  by (auto simp: blob_step split: sum.splits)

lemma blob_texts_step:
  assumes "blob_texts b = Some ts"
  shows "blob_loop (b # bs) acc
           = (Download (name b) # fst (blob_loop bs (acc @ lines_of ts)),
              snd (blob_loop bs (acc @ lines_of ts)))"
proof -
  from assms obtain ps where ps: "payload_pages b = Some ps"
      and ts: "those (map page_text ps) = Some ts"
    by (auto simp: blob_texts_def split: option.splits)
  from ps obtain s where s: "payload_text b = Some s"
      and j: "\<exists>d. json_loads s = Inr (PyDict d) \<and> map_of d (ustr ''responses'') = Some (PyList ps)"
    by (auto simp: payload_pages_def split: option.splits sum.splits json.splits)
  from s obtain raw where raw: "download_as_bytes b = Inr raw" and d: "decode_utf8 raw = Inr s"
    by (auto simp: payload_text_def split: sum.splits)
  have "try_body s acc = page_loop ps acc"
    using j by (auto simp: try_body_def getitem_def iter_items_def)
  then have "try_body s acc = Inr (acc @ lines_of ts)"
    using ts by (simp add: page_loop_texts)
  then show ?thesis
    using raw d by (simp add: blob_step)
qed

lemma blob_loop_texts:
  "those (map blob_texts blobs) = Some tss \<Longrightarrow>
   blob_loop blobs acc
     = (downloads blobs @ [LogInfo ''Combined text extracted successfully.''],
        Inr (acc @ concat (map lines_of tss)))"
proof (induction blobs arbitrary: acc tss)
  case Nil
  then show ?case by (simp add: run_defs)
next
  case (Cons b bs)
  from Cons.prems obtain ts tss' where b: "blob_texts b = Some ts"
      and r: "those (map blob_texts bs) = Some tss'" and tss: "tss = ts # tss'"
    by (auto split: option.splits)
  show ?case
    by (simp add: blob_texts_step [OF b] Cons.IH [OF r] tss)
qed

lemma blob_loop_fails:
  assumes "b \<in> set blobs"
    and "\<And>bs acc. \<exists>e. blob_loop (b # bs) acc = ([Download (name b)], Inl e)"
  shows "\<exists>e k. blob_loop blobs acc = (downloads (take k blobs), Inl e)"
  using assms(1)
proof (induction blobs arbitrary: acc)
  case Nil
  then show ?case by simp
next
  case (Cons q qs)
  show ?case
  proof (cases "q = b")
    case True
    obtain e where "blob_loop (b # qs) acc = ([Download (name b)], Inl e)"
      using assms(2) by blast
    then have "blob_loop (q # qs) acc = (downloads (take 1 (q # qs)), Inl e)"
      using True by simp
    then show ?thesis by blast
  next
    case False
    then have in_qs: "b \<in> set qs" using Cons.prems by simp
    from blob_step_cases [of q qs acc] show ?thesis
    proof
      assume "\<exists>e. blob_loop (q # qs) acc = ([Download (name q)], Inl e)"
      then obtain e where "blob_loop (q # qs) acc = (downloads (take 1 (q # qs)), Inl e)"
        by auto
      then show ?thesis by blast
    next
      assume "\<exists>acc'. blob_loop (q # qs) acc
                 = (Download (name q) # fst (blob_loop qs acc'), snd (blob_loop qs acc'))"
      then obtain acc' where s: "blob_loop (q # qs) acc
                 = (Download (name q) # fst (blob_loop qs acc'), snd (blob_loop qs acc'))"
        by blast
      obtain e k where "blob_loop qs acc' = (downloads (take k qs), Inl e)"
        using Cons.IH [OF in_qs] by blast
      then have "blob_loop (q # qs) acc = (downloads (take (Suc k) (q # qs)), Inl e)"
        using s by simp
      then show ?thesis by blast
    qed
  qed
qed

lemma fails_decoding_turn:
  "fails_decoding b \<Longrightarrow> \<exists>e. blob_loop (b # bs) acc = ([Download (name b)], Inl e)"
  by (auto simp: fails_decoding_def blob_step split: sum.splits)

lemma malformed_json_turn:
  "malformed_json b \<Longrightarrow> \<exists>e. blob_loop (b # bs) acc = ([Download (name b)], Inl e)"
  by (auto simp: malformed_json_def payload_text_def blob_step try_body_def split: sum.splits)

lemma page_lacks_annotation_turn:
  assumes "page_lacks_annotation b"
  shows "\<exists>e. blob_loop (b # bs) acc = ([Download (name b)], Inl e)"
proof -
  from assms obtain ps p where ps: "payload_pages b = Some ps"
      and p: "p \<in> set ps" "\<not> has_annotation p"
    by (auto simp: page_lacks_annotation_def list_ex_iff split: option.splits)
  from ps obtain s where s: "payload_text b = Some s"
      and j: "\<exists>d. json_loads s = Inr (PyDict d) \<and> map_of d (ustr ''responses'') = Some (PyList ps)"
    by (auto simp: payload_pages_def split: option.splits sum.splits json.splits)
  from s obtain raw where raw: "download_as_bytes b = Inr raw" and d: "decode_utf8 raw = Inr s"
    by (auto simp: payload_text_def split: sum.splits)
  have "try_body s acc = page_loop ps acc"
    using j by (auto simp: try_body_def getitem_def iter_items_def)
  then obtain e where "try_body s acc = Inl e"
    using page_loop_fails [OF p, of acc] by auto
  then show ?thesis
    using raw d by (simp add: blob_step)
qed




lemmas blob_defs = blob_with_def to_bytes_def decode_utf8_def continuation_def
  payload_text_def payload_pages_def blob_texts_def page_text_def eval_defs

lemma page1_texts: "blob_texts page1_blob = Some [ustr ''Page1'']"
  by (simp add: page1_blob_def blob_defs)

lemma page2_texts: "blob_texts page2_blob = Some [ustr ''Page2'']"
  by (simp add: page2_blob_def blob_defs)




lemma truncated_malformed: "malformed_json truncated_blob"
  by (simp add: truncated_blob_def malformed_json_def blob_defs)

lemma latin1_fails: "fails_decoding latin1_blob"
  by (simp add: latin1_blob_def fails_decoding_def blob_defs)


lemma page1_turn:
  "blob_loop (page1_blob # bs) acc
     = (Download (ustr ''output-1-to-1.json'') # fst (blob_loop bs (acc @ ustr ''Page1\<newline>'')),
        snd (blob_loop bs (acc @ ustr ''Page1\<newline>'')))"
proof -
  have "lines_of [ustr ''Page1''] = ustr ''Page1\<newline>''"
    by (simp add: lines_of_def ustr_def)
  moreover have "name page1_blob = ustr ''output-1-to-1.json''"
    by (simp add: page1_blob_def blob_with_def)
  ultimately show ?thesis
    using blob_texts_step [OF page1_texts, of bs acc] by simp
qed

lemma blank_page_turn:
  "blob_loop (blank_page_blob # bs) acc
     = ([Download (ustr ''output-3-to-3.json'')], Inl (KeyError (ustr ''fullTextAnnotation'')))"
  by (simp add: blob_step blank_page_blob_def blob_with_def to_bytes_def decode_utf8_def
                continuation_def try_body_def getitem_def iter_items_def eval_defs)

lemma truncated_turn:
  \<open>blob_loop (truncated_blob # bs) acc
     = ([Download (ustr ''output-4-to-4.json'')], Inl (JSONDecodeError (ustr ''{"responses":['')))\<close>
  by (simp add: blob_step truncated_blob_def blob_with_def to_bytes_def decode_utf8_def
                continuation_def try_body_def eval_defs)

lemma latin1_turn:
  "blob_loop (latin1_blob # bs) acc
     = ([Download (ustr ''output-5-to-5.json'')], Inl UnicodeDecodeError)"
  by (simp add: blob_step latin1_blob_def decode_utf8_def continuation_def)

subsection \<open>Text combination\<close>





text \<open>
  C8. When some blob of the list has a payload that is not valid UTF-8, or is not valid
  JSON, or has a page without \<open>fullTextAnnotation\<close>, text combination ends with an
  exception that reaches the caller. It returns no text, and it has done nothing but
  download the blobs up to the one where it stopped.
\<close>

theorem defective_blob_raises:
  "\<forall>blobs.
     (\<exists>b \<in> set blobs. fails_decoding b \<or> malformed_json b \<or> page_lacks_annotation b)
     \<longrightarrow> (\<exists>e k. get_combined_extract_text blobs = (downloads (take k blobs), Inl e))"
proof (intro allI impI)
  fix blobs
  assume "\<exists>b \<in> set blobs. fails_decoding b \<or> malformed_json b \<or> page_lacks_annotation b"
  then obtain b where b: "b \<in> set blobs"
      and d: "fails_decoding b \<or> malformed_json b \<or> page_lacks_annotation b"
    by blast
  have "\<And>bs acc. \<exists>e. blob_loop (b # bs) acc = ([Download (name b)], Inl e)"
    using d fails_decoding_turn malformed_json_turn page_lacks_annotation_turn by blast
  with b have "\<exists>e k. blob_loop blobs [] = (downloads (take k blobs), Inl e)"
    by (rule blob_loop_fails)
  then show "\<exists>e k. get_combined_extract_text blobs = (downloads (take k blobs), Inl e)"
    by (simp add: get_combined_extract_text_def)
qed

theorem defective_blob_raises_witness:
  \<open>malformed_json truncated_blob
   \<and> fails_decoding latin1_blob
   \<and> get_combined_extract_text [page1_blob, truncated_blob, page2_blob]
       = ([Download (ustr ''output-1-to-1.json''), Download (ustr ''output-4-to-4.json'')],
          Inl (JSONDecodeError (ustr ''{"responses":['')))
   \<and> get_combined_extract_text [page1_blob, latin1_blob]
       = ([Download (ustr ''output-1-to-1.json''), Download (ustr ''output-5-to-5.json'')],
          Inl UnicodeDecodeError)\<close>
proof -
  have "\<exists>b \<in> set [page1_blob, truncated_blob, page2_blob].
          fails_decoding b \<or> malformed_json b \<or> page_lacks_annotation b"
    using truncated_malformed by simp
  then obtain e k where
    "get_combined_extract_text [page1_blob, truncated_blob, page2_blob]
       = (downloads (take k [page1_blob, truncated_blob, page2_blob]), Inl e)"
    using defective_blob_raises by blast
  then have s: "\<exists>e. snd (get_combined_extract_text [page1_blob, truncated_blob, page2_blob]) = Inl e"
    by simp
  have a: \<open>get_combined_extract_text [page1_blob, truncated_blob, page2_blob]
       = ([Download (ustr ''output-1-to-1.json''), Download (ustr ''output-4-to-4.json'')],
          Inl (JSONDecodeError (ustr ''{"responses":['')))\<close>
    by (simp add: get_combined_extract_text_def page1_turn truncated_turn)
  have b: "get_combined_extract_text [page1_blob, latin1_blob]
       = ([Download (ustr ''output-1-to-1.json''), Download (ustr ''output-5-to-5.json'')],
          Inl UnicodeDecodeError)"
    by (simp add: get_combined_extract_text_def page1_turn latin1_turn)
  show ?thesis
    using s a b truncated_malformed latin1_fails by simp
qed

subsection \<open>Response parsing\<close>



text \<open>
  C5. A content that does not both start with the open fence and end with the close
  fence is left as it is and parsed as it is. The content with an open fence and no
  close fence, \<open>```json\n{"a":1}\<close>, ends with the decoder's exception.
\<close>

theorem unmatched_fence_unmodified:
  \<open>(\<forall>response c.
      first_content response = Inr (Some c)
      \<and> \<not> (startswith c (ustr ''```json'') \<and> endswith c (ustr ''```''))
      \<longrightarrow> remove_code_block c = c
          \<and> parse_and_validate_response response = parse_outcome c)
   \<and> parse_and_validate_response (completion_of (ustr ''```json\<newline>{"a":1}''))
       = ([], Inl (JSONDecodeError (ustr ''```json\<newline>{"a":1}'')))\<close>
proof (intro conjI allI impI)
  fix response c
  assume a: "first_content response = Inr (Some c)
             \<and> \<not> (startswith c (ustr ''```json'') \<and> endswith c (ustr ''```''))"
  then show r: "remove_code_block c = c"
    by (auto simp: remove_code_block_def)
  from a have "parse_and_validate_response response = parse_outcome (remove_code_block c)"
    by (simp add: parse_content)
  then show "parse_and_validate_response response = parse_outcome c"
    by (simp only: r)
next
  show \<open>parse_and_validate_response (completion_of (ustr ''```json\<newline>{"a":1}''))
          = ([], Inl (JSONDecodeError (ustr ''```json\<newline>{"a":1}'')))\<close>
    by (simp add: parse_completion_of eval_defs)
qed

theorem unmatched_fence_unmodified_witness:
  \<open>first_content (completion_of (ustr ''{"a":1}\<newline>```'')) = Inr (Some (ustr ''{"a":1}\<newline>```''))
   \<and> startswith (ustr ''{"a":1}\<newline>```'') (ustr ''```json'') = False
   \<and> remove_code_block (ustr ''{"a":1}\<newline>```'') = ustr ''{"a":1}\<newline>```''
   \<and> parse_and_validate_response (completion_of (ustr ''{"a":1}\<newline>```''))
       = ([], Inl (JSONDecodeError (ustr ''{"a":1}\<newline>```'')))\<close>
proof -
  let ?c = \<open>ustr ''{"a":1}\<newline>```''\<close>
  have a: "first_content (completion_of ?c) = Inr (Some ?c)"
    by (rule first_content_completion_of)
  have b: "startswith ?c (ustr ''```json'') = False"
    by (simp add: eval_defs)
  have "remove_code_block ?c = ?c
        \<and> parse_and_validate_response (completion_of ?c) = parse_outcome ?c"
    using unmatched_fence_unmodified a b by blast
  moreover have "parse_outcome ?c = ([], Inl (JSONDecodeError ?c))"
    by (simp add: eval_defs)
  ultimately show ?thesis
    using a b by (simp only: simp_thms)
qed


text \<open>
  C10. A content that starts with the open fence and ends with the close fence is the
  open fence (7 characters), a middle part and the close fence (3 characters); what is
  parsed is the middle part without its leading and trailing white space. So
  \<open>```json\n  {"a":1}  \n```\<close> parses to the object.
\<close>

theorem fenced_content_stripped:
  \<open>(\<forall>response c.
      first_content response = Inr (Some c)
      \<and> startswith c (ustr ''```json'') \<and> endswith c (ustr ''```'')
      \<longrightarrow> (\<exists>mid. c = ustr ''```json'' @ mid @ ustr ''```''
                 \<and> remove_code_block c = strip mid
                 \<and> parse_and_validate_response response = parse_outcome (strip mid)))
   \<and> length (ustr ''```json'') = 7 \<and> length (ustr ''```'') = 3
   \<and> parse_and_validate_response (completion_of (ustr ''```json\<newline>  {"a":1}  \<newline>```''))
       = ([LogInfo ''Extracted JSON validated successfully.''],
          Inr (PyDict [(ustr ''a'', PyInt 1)]))\<close>
proof (intro conjI allI impI)
  fix response c
  assume a: "first_content response = Inr (Some c)
             \<and> startswith c (ustr ''```json'') \<and> endswith c (ustr ''```'')"
  then obtain mid where m: "c = ustr ''```json'' @ mid @ ustr ''```''"
      and s: "py_slice c 7 (- 3) = mid"
    using fenced_shape [of c] by blast
  have "remove_code_block c = strip mid"
    using a s by (simp add: remove_code_block_def)
  moreover from this have "parse_and_validate_response response = parse_outcome (strip mid)"
    using a by (simp add: parse_content)
  ultimately show "\<exists>mid. c = ustr ''```json'' @ mid @ ustr ''```''
                 \<and> remove_code_block c = strip mid
                 \<and> parse_and_validate_response response = parse_outcome (strip mid)"
    using m by blast
next
  show "length (ustr ''```json'') = 7" by (simp add: ustr_def)
  show "length (ustr ''```'') = 3" by (simp add: ustr_def)
  show \<open>parse_and_validate_response (completion_of (ustr ''```json\<newline>  {"a":1}  \<newline>```''))
       = ([LogInfo ''Extracted JSON validated successfully.''],
          Inr (PyDict [(ustr ''a'', PyInt 1)]))\<close>
    by (simp add: parse_completion_of eval_defs)
qed

theorem fenced_content_stripped_witness:
  \<open>first_content (completion_of (ustr ''```json [1, 2]\<newline>```''))
     = Inr (Some (ustr ''```json [1, 2]\<newline>```''))
   \<and> startswith (ustr ''```json [1, 2]\<newline>```'') (ustr ''```json'')
   \<and> endswith (ustr ''```json [1, 2]\<newline>```'') (ustr ''```'')
   \<and> remove_code_block (ustr ''```json [1, 2]\<newline>```'') = ustr ''[1, 2]''
   \<and> parse_and_validate_response (completion_of (ustr ''```json [1, 2]\<newline>```''))
       = ([LogInfo ''Extracted JSON validated successfully.''], Inr (PyList [PyInt 1, PyInt 2]))\<close>
proof -
  let ?c = \<open>ustr ''```json [1, 2]\<newline>```''\<close>
  have a: "first_content (completion_of ?c) = Inr (Some ?c)"
    by (rule first_content_completion_of)
  have b: "startswith ?c (ustr ''```json'')" and c: "endswith ?c (ustr ''```'')"
    by (simp_all add: eval_defs)
  obtain mid where m: "remove_code_block ?c = strip mid"
      and p: "parse_and_validate_response (completion_of ?c) = parse_outcome (strip mid)"
    using fenced_content_stripped a b c by blast
  have r: "remove_code_block ?c = ustr ''[1, 2]''"
    by (simp add: eval_defs)
  then have "strip mid = ustr ''[1, 2]''"
    using m by simp
  moreover have "parse_outcome (ustr ''[1, 2]'')
                   = ([LogInfo ''Extracted JSON validated successfully.''],
                      Inr (PyList [PyInt 1, PyInt 2]))"
    by (simp add: eval_defs)
  ultimately have "parse_and_validate_response (completion_of ?c)
                   = ([LogInfo ''Extracted JSON validated successfully.''],
                      Inr (PyList [PyInt 1, PyInt 2]))"
    using p by simp
  then show ?thesis
    using a b c r by (simp only: simp_thms)
qed

subsection \<open>Facts about the pipeline\<close>

lemmas event_defs = is_ocr_request_def is_completion_request_def is_print_def is_log_error_def

lemma seq_Inl [simp]: "seq (t, Inl e) f = (t, Inl e)"
  by (simp add: seq_def)

lemma seq_Inr [simp]: "seq (t, Inr x) f = (t @ fst (f x), snd (f x))"
  by (simp add: seq_def split: prod.splits)

lemma detect_events:
  "\<exists>rest. fst (async_detect_document w src dst mime batch) = AnnotateFiles src dst mime batch # rest
          \<and> filter is_ocr_request rest = [] \<and> filter is_completion_request rest = []
          \<and> filter is_print rest = [] \<and> filter is_log_error rest = []"
  by (auto simp: async_detect_document_def run_defs event_defs split: sum.splits prod.splits)

lemma blob_loop_events:
  "filter is_ocr_request (fst (blob_loop blobs acc)) = []
   \<and> filter is_completion_request (fst (blob_loop blobs acc)) = []
   \<and> filter is_print (fst (blob_loop blobs acc)) = []
   \<and> filter is_log_error (fst (blob_loop blobs acc)) = []"
proof (induction blobs arbitrary: acc)
  case Nil
  show ?case by (simp add: run_defs event_defs)
next
  case (Cons b bs)
  from blob_step_cases [of b bs acc] show ?case
    using Cons.IH by (auto simp: event_defs)
qed

lemma send_events:
  "\<exists>rest. fst (send_to_portkey w prompt text)
            = [LogInfo ''Sending request to Portkey with payload.'', CompletionsCreate prompt text] @ rest
          \<and> filter is_ocr_request rest = [] \<and> filter is_completion_request rest = []
          \<and> filter is_print rest = []"
  by (auto simp: send_to_portkey_def run_defs event_defs split: sum.splits prod.splits)

lemma parse_events:
  "filter is_ocr_request (fst (parse_and_validate_response r)) = []
   \<and> filter is_completion_request (fst (parse_and_validate_response r)) = []
   \<and> filter is_print (fst (parse_and_validate_response r)) = []
   \<and> filter is_log_error (fst (parse_and_validate_response r)) = []"
  by (auto simp: parse_and_validate_response_def run_defs event_defs
           split: sum.splits prod.splits option.splits dest: json_loads_error)


lemma process_document_events:
  "\<exists>rest. fst (process_document w src dst prompt)
            = AnnotateFiles src dst (ustr ''application/pdf'') 2 # rest
          \<and> filter is_ocr_request rest = []
          \<and> length (filter is_completion_request rest) \<le> 1
          \<and> filter is_print rest = []"
proof -
  obtain r1 where d: "fst (async_detect_document w src dst (ustr ''application/pdf'') 2)
                        = AnnotateFiles src dst (ustr ''application/pdf'') 2 # r1"
      and r1: "filter is_ocr_request r1 = []" "filter is_completion_request r1 = []"
              "filter is_print r1 = []"
    using detect_events by blast
  note b = blob_loop_events
  note p = parse_events
  show ?thesis
  proof (cases "snd (async_detect_document w src dst (ustr ''application/pdf'') 2)")
    case (Inl e)
    then have "process_document w src dst prompt
                 = (AnnotateFiles src dst (ustr ''application/pdf'') 2 # r1, Inl e)"
      using d by (cases "async_detect_document w src dst (ustr ''application/pdf'') 2")
                 (simp add: process_document_def)
    then show ?thesis using r1 by simp
  next
    case (Inr blobs)
    then have pd: "process_document w src dst prompt
                 = seq (AnnotateFiles src dst (ustr ''application/pdf'') 2 # r1, Inr blobs)
                     (\<lambda>blob_list. seq (get_combined_extract_text blob_list) (\<lambda>combined_text.
                        seq (send_to_portkey w prompt combined_text) (\<lambda>response.
                        parse_and_validate_response response)))"
      using d by (cases "async_detect_document w src dst (ustr ''application/pdf'') 2")
                 (simp add: process_document_def)
    obtain t2 o2 where c: "blob_loop blobs [] = (t2, o2)" by (cases "blob_loop blobs []")
    have t2: "filter is_ocr_request t2 = []" "filter is_completion_request t2 = []"
             "filter is_print t2 = []"
      using b [of blobs "[]"] c by simp_all
    show ?thesis
    proof (cases o2)
      case (Inl e)
      then show ?thesis
        using pd c r1 t2 by (simp add: get_combined_extract_text_def)
    next
      case (Inr combined)
      obtain t3 o3 where s: "send_to_portkey w prompt combined = (t3, o3)"
        by (cases "send_to_portkey w prompt combined")
      obtain r3 where t3: "t3 = [LogInfo ''Sending request to Portkey with payload.'',
                                 CompletionsCreate prompt combined] @ r3"
          and r3: "filter is_ocr_request r3 = []" "filter is_completion_request r3 = []"
                  "filter is_print r3 = []"
        using send_events [of w prompt combined] s by auto
      show ?thesis
      proof (cases o3)
        case (Inl e)
        then show ?thesis
          using pd c r1 t2 \<open>o2 = Inr combined\<close> s t3 r3
          by (simp add: get_combined_extract_text_def event_defs)
      next
        case (Inr response)
        then show ?thesis
          using pd c r1 t2 \<open>o2 = Inr combined\<close> s t3 r3 p [of response]
          by (simp add: get_combined_extract_text_def event_defs)
      qed
    qed
  qed
qed

lemma detect_example:
  "async_detect_document (example_world finished listed reply)
     (Some src) (Some (ustr ''gs://bucket/out/'')) mime batch
   = ([AnnotateFiles (Some src) (Some (ustr ''gs://bucket/out/'')) mime batch,
       LogInfo ''Waiting for the operation to finish.'', OperationResult 420,
       NewStorageClient, ListBlobs (ustr ''bucket'') (ustr ''out/'')],
      Inr (filter (\<lambda>blob. \<not> endswith (name blob) [0x2F]) listed))"
  by (simp add: async_detect_document_def example_world_def finished_def run_defs
                destination_groups_def match_gs_uri_def startswith_def ustr_def)

lemma detect_timed_out:
  "async_detect_document (example_world timed_out listed reply)
     (Some src) dst mime batch
   = ([AnnotateFiles (Some src) dst mime batch,
       LogInfo ''Waiting for the operation to finish.'', OperationResult 420],
      Inl (ServiceError 504))"
  by (simp add: async_detect_document_def example_world_def timed_out_def run_defs)


lemma listing_filtered:
  "filter (\<lambda>blob. \<not> endswith (name blob) [0x2F]) [directory_marker, page1_blob, page2_blob]
     = [page1_blob, page2_blob]"
  by (simp add: directory_marker_def page1_blob_def page2_blob_def blob_with_def
                endswith_def ustr_def)

lemma send_example:
  "send_to_portkey (example_world operation listed reply) prompt body
   = (case reply of
        Inl e \<Rightarrow> ([LogInfo ''Sending request to Portkey with payload.'',
                    CompletionsCreate prompt body,
                    LogError ''Error sending request to Portkey: '' e], Inl e)
      | Inr response \<Rightarrow> ([LogInfo ''Sending request to Portkey with payload.'',
                    CompletionsCreate prompt body,
                    LogInfo ''Portkey response received.''], Inr response))"
  by (simp add: send_to_portkey_def example_world_def run_defs split: sum.splits)

lemma combine_pages:
  "get_combined_extract_text [page1_blob, page2_blob]
     = ([Download (ustr ''output-1-to-1.json''), Download (ustr ''output-2-to-2.json''),
         LogInfo ''Combined text extracted successfully.''],
        Inr (ustr ''Page1\<newline>Page2\<newline>''))"
proof -
  have "those (map blob_texts [page1_blob, page2_blob]) = Some [[ustr ''Page1''], [ustr ''Page2'']]"
    by (simp add: page1_texts page2_texts)
  from blob_loop_texts [OF this, of "[]"] show ?thesis
    by (simp add: get_combined_extract_text_def lines_of_def ustr_def page1_blob_def
                  page2_blob_def blob_with_def)
qed


lemma listing_kept:
  "filter (\<lambda>blob. \<not> endswith (name blob) [0x2F]) [page1_blob, blank_page_blob]
     = [page1_blob, blank_page_blob]"
  by (simp add: page1_blob_def blank_page_blob_def blob_with_def endswith_def ustr_def)

lemma combine_blank:
  "get_combined_extract_text [page1_blob, blank_page_blob]
     = ([Download (ustr ''output-1-to-1.json''), Download (ustr ''output-3-to-3.json'')],
        Inl (KeyError (ustr ''fullTextAnnotation'')))"
  by (simp add: get_combined_extract_text_def page1_turn blank_page_turn)

lemma parse_fenced_example:
  \<open>parse_and_validate_response (completion_of (ustr ''```json\<newline>{"a":1}\<newline>```''))
     = ([LogInfo ''Extracted JSON validated successfully.''],
        Inr (PyDict [(ustr ''a'', PyInt 1)]))\<close>
  by (simp add: parse_completion_of eval_defs)








subsection \<open>The pipeline\<close>

text \<open>
  C9. \<open>process_document\<close> runs OCR submission, text combination, the completion request
  and response parsing one after the other. Its effects are the effects of the steps
  that ran, in that order; it ends as the first failing step ends, and later steps
  have no effect; when the first three steps succeed it ends as parsing ends, with the
  parsed record on success. The OCR request is issued once, first, and the completion
  request at most once.
\<close>

theorem pipeline_in_sequence:
  "(\<forall>w src dst prompt t1 e.
      async_detect_document w src dst (ustr ''application/pdf'') 2 = (t1, Inl e)
      \<longrightarrow> process_document w src dst prompt = (t1, Inl e))
   \<and> (\<forall>w src dst prompt t1 blobs t2 e.
        async_detect_document w src dst (ustr ''application/pdf'') 2 = (t1, Inr blobs)
        \<and> get_combined_extract_text blobs = (t2, Inl e)
        \<longrightarrow> process_document w src dst prompt = (t1 @ t2, Inl e))
   \<and> (\<forall>w src dst prompt t1 blobs t2 combined t3 e.
        async_detect_document w src dst (ustr ''application/pdf'') 2 = (t1, Inr blobs)
        \<and> get_combined_extract_text blobs = (t2, Inr combined)
        \<and> send_to_portkey w prompt combined = (t3, Inl e)
        \<longrightarrow> process_document w src dst prompt = (t1 @ t2 @ t3, Inl e))
   \<and> (\<forall>w src dst prompt t1 blobs t2 combined t3 response t4 outcome.
        async_detect_document w src dst (ustr ''application/pdf'') 2 = (t1, Inr blobs)
        \<and> get_combined_extract_text blobs = (t2, Inr combined)
        \<and> send_to_portkey w prompt combined = (t3, Inr response)
        \<and> parse_and_validate_response response = (t4, outcome)
        \<longrightarrow> process_document w src dst prompt = (t1 @ t2 @ t3 @ t4, outcome))
   \<and> (\<forall>w src dst prompt.
        \<exists>rest. fst (process_document w src dst prompt)
                 = AnnotateFiles src dst (ustr ''application/pdf'') 2 # rest
               \<and> filter is_ocr_request rest = []
               \<and> length (filter is_completion_request rest) \<le> 1)"
proof (intro conjI allI impI)
  fix w src dst prompt
  show "\<exists>rest. fst (process_document w src dst prompt)
                 = AnnotateFiles src dst (ustr ''application/pdf'') 2 # rest
               \<and> filter is_ocr_request rest = []
               \<and> length (filter is_completion_request rest) \<le> 1"
    using process_document_events [of w src dst prompt] by blast
qed (simp_all add: process_document_def)

theorem pipeline_in_sequence_witness:
  \<open>process_document (example_world timed_out [] (Inl (ServiceError 503)))
      (Some (ustr ''gs://bucket/in.pdf'')) (Some (ustr ''gs://bucket/out/'')) (Some (ustr ''pp-1''))
     = ([AnnotateFiles (Some (ustr ''gs://bucket/in.pdf'')) (Some (ustr ''gs://bucket/out/''))
           (ustr ''application/pdf'') 2,
         LogInfo ''Waiting for the operation to finish.'', OperationResult 420],
        Inl (ServiceError 504))
   \<and> process_document (example_world finished [page1_blob, blank_page_blob] (Inl (ServiceError 503)))
      (Some (ustr ''gs://bucket/in.pdf'')) (Some (ustr ''gs://bucket/out/'')) (Some (ustr ''pp-1''))
     = ([AnnotateFiles (Some (ustr ''gs://bucket/in.pdf'')) (Some (ustr ''gs://bucket/out/''))
           (ustr ''application/pdf'') 2,
         LogInfo ''Waiting for the operation to finish.'', OperationResult 420,
         NewStorageClient, ListBlobs (ustr ''bucket'') (ustr ''out/''),
         Download (ustr ''output-1-to-1.json''), Download (ustr ''output-3-to-3.json'')],
        Inl (KeyError (ustr ''fullTextAnnotation'')))
   \<and> process_document
        (example_world finished [directory_marker, page1_blob, page2_blob] (Inl (ServiceError 503)))
      (Some (ustr ''gs://bucket/in.pdf'')) (Some (ustr ''gs://bucket/out/'')) (Some (ustr ''pp-1''))
     = ([AnnotateFiles (Some (ustr ''gs://bucket/in.pdf'')) (Some (ustr ''gs://bucket/out/''))
           (ustr ''application/pdf'') 2,
         LogInfo ''Waiting for the operation to finish.'', OperationResult 420,
         NewStorageClient, ListBlobs (ustr ''bucket'') (ustr ''out/''),
         Download (ustr ''output-1-to-1.json''), Download (ustr ''output-2-to-2.json''),
         LogInfo ''Combined text extracted successfully.'',
         LogInfo ''Sending request to Portkey with payload.'',
         CompletionsCreate (Some (ustr ''pp-1'')) (ustr ''Page1\<newline>Page2\<newline>''),
         LogError ''Error sending request to Portkey: '' (ServiceError 503)],
        Inl (ServiceError 503))
   \<and> process_document
        (example_world finished [directory_marker, page1_blob, page2_blob]
           (Inr (completion_of (ustr ''```json\<newline>{"a":1}\<newline>```''))))
      (Some (ustr ''gs://bucket/in.pdf'')) (Some (ustr ''gs://bucket/out/'')) (Some (ustr ''pp-1''))
     = ([AnnotateFiles (Some (ustr ''gs://bucket/in.pdf'')) (Some (ustr ''gs://bucket/out/''))
           (ustr ''application/pdf'') 2,
         LogInfo ''Waiting for the operation to finish.'', OperationResult 420,
         NewStorageClient, ListBlobs (ustr ''bucket'') (ustr ''out/''),
         Download (ustr ''output-1-to-1.json''), Download (ustr ''output-2-to-2.json''),
         LogInfo ''Combined text extracted successfully.'',
         LogInfo ''Sending request to Portkey with payload.'',
         CompletionsCreate (Some (ustr ''pp-1'')) (ustr ''Page1\<newline>Page2\<newline>''),
         LogInfo ''Portkey response received.'',
         LogInfo ''Extracted JSON validated successfully.''],
        Inr (PyDict [(ustr ''a'', PyInt 1)]))\<close>
proof -
  let ?src = "Some (ustr ''gs://bucket/in.pdf'')"
  let ?dst = "Some (ustr ''gs://bucket/out/'')"
  let ?prompt = "Some (ustr ''pp-1'')"
  let ?pages = "[directory_marker, page1_blob, page2_blob]"
  let ?fenced = \<open>completion_of (ustr ''```json\<newline>{"a":1}\<newline>```'')\<close>
  note p1 = pipeline_in_sequence [THEN conjunct1, rule_format]
  note p2 = pipeline_in_sequence [THEN conjunct2, THEN conjunct1, rule_format]
  note p3 = pipeline_in_sequence [THEN conjunct2, THEN conjunct2, THEN conjunct1, rule_format]
  note p4 = pipeline_in_sequence
    [THEN conjunct2, THEN conjunct2, THEN conjunct2, THEN conjunct1, rule_format]
  have 1: "process_document (example_world timed_out [] (Inl (ServiceError 503))) ?src ?dst ?prompt
             = ([AnnotateFiles ?src ?dst (ustr ''application/pdf'') 2,
                 LogInfo ''Waiting for the operation to finish.'', OperationResult 420],
                Inl (ServiceError 504))"
    by (rule p1) (rule detect_timed_out)
  have d2: "async_detect_document
              (example_world finished [page1_blob, blank_page_blob] (Inl (ServiceError 503)))
              ?src ?dst (ustr ''application/pdf'') 2
            = ([AnnotateFiles ?src ?dst (ustr ''application/pdf'') 2,
                LogInfo ''Waiting for the operation to finish.'', OperationResult 420,
                NewStorageClient, ListBlobs (ustr ''bucket'') (ustr ''out/'')],
               Inr [page1_blob, blank_page_blob])"
    by (simp only: detect_example listing_kept)
  have 2: "process_document
             (example_world finished [page1_blob, blank_page_blob] (Inl (ServiceError 503)))
             ?src ?dst ?prompt
           = ([AnnotateFiles ?src ?dst (ustr ''application/pdf'') 2,
                LogInfo ''Waiting for the operation to finish.'', OperationResult 420,
                NewStorageClient, ListBlobs (ustr ''bucket'') (ustr ''out/'')]
              @ [Download (ustr ''output-1-to-1.json''), Download (ustr ''output-3-to-3.json'')],
              Inl (KeyError (ustr ''fullTextAnnotation'')))"
    by (rule p2, rule conjI, rule d2, rule combine_blank)
  have d3: "\<And>reply. async_detect_document (example_world finished ?pages reply)
              ?src ?dst (ustr ''application/pdf'') 2
            = ([AnnotateFiles ?src ?dst (ustr ''application/pdf'') 2,
                LogInfo ''Waiting for the operation to finish.'', OperationResult 420,
                NewStorageClient, ListBlobs (ustr ''bucket'') (ustr ''out/'')],
               Inr [page1_blob, page2_blob])"
    by (simp only: detect_example listing_filtered)
  have s3: "send_to_portkey (example_world finished ?pages (Inl (ServiceError 503)))
              ?prompt (ustr ''Page1\<newline>Page2\<newline>'')
            = ([LogInfo ''Sending request to Portkey with payload.'',
                CompletionsCreate ?prompt (ustr ''Page1\<newline>Page2\<newline>''),
                LogError ''Error sending request to Portkey: '' (ServiceError 503)],
               Inl (ServiceError 503))"
    by (simp add: send_example)
  have 3: "process_document (example_world finished ?pages (Inl (ServiceError 503)))
             ?src ?dst ?prompt
           = ([AnnotateFiles ?src ?dst (ustr ''application/pdf'') 2,
                LogInfo ''Waiting for the operation to finish.'', OperationResult 420,
                NewStorageClient, ListBlobs (ustr ''bucket'') (ustr ''out/'')]
              @ [Download (ustr ''output-1-to-1.json''), Download (ustr ''output-2-to-2.json''),
                 LogInfo ''Combined text extracted successfully.'']
              @ [LogInfo ''Sending request to Portkey with payload.'',
                CompletionsCreate ?prompt (ustr ''Page1\<newline>Page2\<newline>''),
                LogError ''Error sending request to Portkey: '' (ServiceError 503)],
              Inl (ServiceError 503))"
    by (rule p3, rule conjI, rule d3, rule conjI, rule combine_pages, rule s3)
  have s4: "send_to_portkey (example_world finished ?pages (Inr ?fenced))
              ?prompt (ustr ''Page1\<newline>Page2\<newline>'')
            = ([LogInfo ''Sending request to Portkey with payload.'',
                CompletionsCreate ?prompt (ustr ''Page1\<newline>Page2\<newline>''),
                LogInfo ''Portkey response received.''],
               Inr ?fenced)"
    by (simp add: send_example)
  have 4: "process_document (example_world finished ?pages (Inr ?fenced)) ?src ?dst ?prompt
           = ([AnnotateFiles ?src ?dst (ustr ''application/pdf'') 2,
                LogInfo ''Waiting for the operation to finish.'', OperationResult 420,
                NewStorageClient, ListBlobs (ustr ''bucket'') (ustr ''out/'')]
              @ [Download (ustr ''output-1-to-1.json''), Download (ustr ''output-2-to-2.json''),
                 LogInfo ''Combined text extracted successfully.'']
              @ [LogInfo ''Sending request to Portkey with payload.'',
                CompletionsCreate ?prompt (ustr ''Page1\<newline>Page2\<newline>''),
                LogInfo ''Portkey response received.'']
              @ [LogInfo ''Extracted JSON validated successfully.''],
              Inr (PyDict [(ustr ''a'', PyInt 1)]))"
    by (rule p4, rule conjI, rule d3, rule conjI, rule combine_pages, rule conjI, rule s4,
        rule parse_fenced_example)
  show ?thesis
    using 1 2 3 4 by (simp only: append.simps)
qed

subsection \<open>The process\<close>







end
